theory Spec2Isabelle
  imports Main
begin

section \<open>The backend of deepin-anything: \<open>server/backend/anythingbackend.cpp\<close>\<close>

text \<open>
  The file holds the plugin registry (\<open>interfaceList\<close> with \<open>addPlugin\<close> and
  \<open>removePlugins\<close>), the mount relay (\<open>writeMountInfo\<close>), and the start-up path
  (\<open>init_connection\<close>, \<open>backendRun\<close>, \<open>monitorStart\<close>) with the three handlers of
  the plugin loader's signals.

  Calls into Qt, the kernel, D-Bus, the plugin factory and the plugin loader are effects.
  Each function of the model returns the calls it makes, in program order, as a list of
  \<open>action\<close>s; what such a call answers is read from an environment record.
\<close>

subsection \<open>Data\<close>

type_synonym key = string

text \<open>A \<open>DASInterface*\<close>: the identity of the object. Its thread is the \<open>QThread\<close> that
  \<open>addPlugin\<close> creates with the interface as parent, one per interface, so the thread is
  named by the interface it belongs to.\<close>

type_synonym handle = nat

text \<open>A \<open>QPluginLoader*\<close>.\<close>

type_synonym loader = nat

datatype signal = fileCreated | fileDeleted | fileRenamed

datatype loader_signal = pluginRemoved | pluginModified | pluginAdded

text \<open>The \<open>QIODevice\<close> open-mode flags that \<open>writeMountInfo\<close> passes to \<open>QFile::open\<close>.\<close>

datatype open_flag = ReadOnly | WriteOnly | Text | ExistingOnly

datatype action =
    QWarning "string list"
  | QDebug "string list"
  | SysUname
  | FileOpen string "open_flag list" bool
  | FileReadAll string
  | FileWrite string string int
  | FileClose string
  | FactoryCreate key bool
  | NewThread handle
  | MoveToThread handle
  | ThreadStart handle
  | ThreadQuit handle
  | ThreadWait handle bool
  | ListAppend key handle
  | ListRemoveAt nat
  | Connect signal handle
  | Disconnect handle
  | DeleteLater handle
  | RemoveLoader loader
  | ReloadLoader loader bool
  | SetMessagePattern
  | NewServer
  | ConnectLoader loader_signal
  | ServerStart
  | RegisterAppenders
  | RegisterService bool
  | RegisterObject bool

text \<open>\<open>enum WriteMountInfoError\<close>, in the order of its declaration (\<open>Success = 0\<close>).\<close>

datatype WriteMountInfoError =
    Success
  | UnameFail
  | UnrecognizedVersion
  | OpenSrcFileFail
  | OpenDstFileFail
  | WriteDstFileFail

fun error_code :: "WriteMountInfoError \<Rightarrow> int" where
  "error_code Success = 0"
| "error_code UnameFail = 1"
| "error_code UnrecognizedVersion = 2"
| "error_code OpenSrcFileFail = 3"
| "error_code OpenDstFileFail = 4"
| "error_code WriteDstFileFail = 5"

subsection \<open>The Qt string functions that \<open>writeMountInfo\<close> calls\<close>

text \<open>\<open>QString::split(".")\<close> with the default \<open>KeepEmptyParts\<close>: the pieces between the
  dots, empty ones included, so a string with \<open>n\<close> dots gives \<open>n + 1\<close> pieces.\<close>

fun split_dot :: "string \<Rightarrow> string list" where
  "split_dot [] = [[]]"
| "split_dot (c # cs) =
     (if c = CHR ''.'' then [] # split_dot cs
      else (case split_dot cs of
              [] \<Rightarrow> [[c]]
            | p # ps \<Rightarrow> (c # p) # ps))"

text \<open>\<open>QString::toInt()\<close> (base 10, no \<open>ok\<close> pointer), as Qt documents it: white space
  at both ends is skipped, then an optional sign and at least one decimal digit must make
  up the whole string, and the value must fit an \<open>int\<close>; in every other case the
  conversion fails and the result is 0.\<close>

definition isSpace :: "char \<Rightarrow> bool" where
  "isSpace c = (c \<in> set [CHR '' '', CHR 0x09, CHR 0x0A, CHR 0x0B, CHR 0x0C, CHR 0x0D])"

definition trimmed :: "string \<Rightarrow> string" where
  "trimmed s = rev (dropWhile isSpace (rev (dropWhile isSpace s)))"

definition isDigit :: "char \<Rightarrow> bool" where
  "isDigit c = (c \<in> set ''0123456789'')"

definition digits_value :: "string \<Rightarrow> int" where
  "digits_value ds = foldl (\<lambda>acc c. acc * 10 + (of_char c - 48)) 0 ds"

text \<open>The sign and the digit string of a trimmed numeral.\<close>

fun sign_and_digits :: "string \<Rightarrow> bool \<times> string" where
  "sign_and_digits [] = (False, [])"
| "sign_and_digits (c # r) =
     (if c = CHR ''-'' then (True, r)
      else if c = CHR ''+'' then (False, r)
      else (False, c # r))"

definition decimal_integer :: "string \<Rightarrow> bool" where
  "decimal_integer s =
     (let ds = snd (sign_and_digits (trimmed s)) in ds \<noteq> [] \<and> list_all isDigit ds)"

definition toIntegral :: "string \<Rightarrow> int option" where
  "toIntegral s =
     (if \<not> decimal_integer s then None
      else
        let (neg, ds) = sign_and_digits (trimmed s);
            v = (if neg then - digits_value ds else digits_value ds)
        in if - 2147483648 \<le> v \<and> v \<le> 2147483647 then Some v else None)"

definition toInt :: "string \<Rightarrow> int" where
  "toInt s = (case toIntegral s of None \<Rightarrow> 0 | Some v \<Rightarrow> v)"

subsection \<open>The mount relay\<close>

text \<open>What the system answers to \<open>writeMountInfo\<close>: \<open>uname_release\<close> is \<open>uts.release\<close>,
  or \<open>None\<close> when \<open>uname\<close> does not return 0; \<open>mountinfo\<close> is what \<open>readAll\<close> returns for
  \<open>/proc/self/mountinfo\<close>, or \<open>None\<close> when the file does not open; \<open>drv_open\<close> tells
  whether \<open>/dev/driver_set_info\<close> opens with \<open>ExistingOnly | WriteOnly | Text\<close>, a mode
  that opens a file only if it exists;
  \<open>drv_write\<close> is the value \<open>QFile::write\<close> returns for the bytes it is given (the number
  of bytes written, or \<open>-1\<close>).\<close>

record sys_env =
  uname_release :: "string option"
  mountinfo :: "string option"
  drv_open :: bool
  drv_write :: "string \<Rightarrow> int"

definition file_mountinfo_path :: string where
  "file_mountinfo_path = ''/proc/self/mountinfo''"

definition file_drv_path :: string where
  "file_drv_path = ''/dev/driver_set_info''"

text \<open>The test of line 136, \<open>ver_x >= 6 || (5 == ver_x && ver_y >= 10)\<close>.\<close>

definition version_gate :: "int \<Rightarrow> int \<Rightarrow> bool" where
  "version_gate ver_x ver_y = (ver_x \<ge> 6 \<or> (5 = ver_x \<and> ver_y \<ge> 10))"

text \<open>The body of the \<open>if\<close> of lines 136 to 161: the value returned from inside it, or
  \<open>None\<close> when control reaches its end.\<close>

definition relay_mountinfo :: "sys_env \<Rightarrow> WriteMountInfoError option \<times> action list" where
  "relay_mountinfo e =
     (case mountinfo e of
        None \<Rightarrow>
          (Some OpenSrcFileFail,
           [FileOpen file_mountinfo_path [ReadOnly, Text] False,
            QWarning [''open file '', file_mountinfo_path, '' failed'']])
      | Some mount_info \<Rightarrow>
          (let t = [FileOpen file_mountinfo_path [ReadOnly, Text] True,
                    FileReadAll file_mountinfo_path,
                    FileClose file_mountinfo_path]
           in if \<not> drv_open e then
                (Some OpenDstFileFail,
                 t @ [FileOpen file_drv_path [ExistingOnly, WriteOnly, Text] False,
                      QWarning [''open file '', file_drv_path, '' failed'']])
              else
                (let n = drv_write e mount_info;
                     t' = t @ [FileOpen file_drv_path [ExistingOnly, WriteOnly, Text] True,
                               FileWrite file_drv_path mount_info n]
                 in if n \<noteq> int (length mount_info) then
                      (Some WriteDstFileFail,
                       t' @ [QWarning [''write file '', file_drv_path, '' failed'']])
                    else
                      (None,
                       t' @ [FileClose file_drv_path,
                             QDebug [''write mountinfo success'']]))))"

definition writeMountInfo :: "sys_env \<Rightarrow> WriteMountInfoError \<times> action list" where
  "writeMountInfo e =
     (case uname_release e of
        None \<Rightarrow> (UnameFail, [SysUname, QWarning [''uname fail'']])
      | Some release \<Rightarrow>
          (let t = [SysUname, QDebug [''the kernel version: '', release]];
               ver_list = split_dot release
           in if length ver_list < 3 then
                (UnrecognizedVersion,
                 t @ [QWarning [''unrecognized version format, expect x.y.z'']])
              else
                (let ver_x = toInt (ver_list ! 0);
                     ver_y = toInt (ver_list ! 1)
                 in if version_gate ver_x ver_y then
                      (case relay_mountinfo e of
                         (Some err, t') \<Rightarrow> (err, t @ t')
                       | (None, t') \<Rightarrow> (Success, t @ t'))
                    else (Success, t))))"

text \<open>The writes to the relay channel (the bytes handed to \<open>write\<close> and the value it
  returned) and the calls on files among the calls made.\<close>

fun relay_writes :: "action list \<Rightarrow> (string \<times> int) list" where
  "relay_writes [] = []"
| "relay_writes (FileWrite p d n # t) = (d, n) # relay_writes t"
| "relay_writes (a # t) = relay_writes t"

fun is_file_call :: "action \<Rightarrow> bool" where
  "is_file_call (FileOpen p m ok) = True"
| "is_file_call (FileReadAll p) = True"
| "is_file_call (FileWrite p d n) = True"
| "is_file_call (FileClose p) = True"
| "is_file_call a = False"

definition file_calls :: "action list \<Rightarrow> action list" where
  "file_calls t = filter is_file_call t"

text \<open>The open modes of the \<open>open\<close> calls made on a path, in order.\<close>

fun open_modes :: "string \<Rightarrow> action list \<Rightarrow> open_flag list list" where
  "open_modes p [] = []"
| "open_modes p (FileOpen q m ok # t) =
     (if q = p then m # open_modes p t else open_modes p t)"
| "open_modes p (a # t) = open_modes p t"

text \<open>The list of results as the specification words it, one condition after the other
  with nothing said of the kernel version, to be compared with \<open>writeMountInfo\<close>.\<close>

definition listed_result :: "sys_env \<Rightarrow> WriteMountInfoError" where
  "listed_result e =
     (case uname_release e of
        None \<Rightarrow> UnameFail
      | Some release \<Rightarrow>
          if length (split_dot release) < 3 then UnrecognizedVersion
          else (case mountinfo e of
                  None \<Rightarrow> OpenSrcFileFail
                | Some d \<Rightarrow>
                    if \<not> drv_open e then OpenDstFileFail
                    else if drv_write e d \<noteq> int (length d) then WriteDstFileFail
                    else Success))"

subsection \<open>The registry\<close>

text \<open>What the collaborators answer: whether \<open>DASFactory::create\<close> gives an interface for
  a key, \<open>DASFactory::keys()\<close>, what \<open>QThread::wait()\<close> returns for the thread of an
  interface, what \<open>reloadLoader\<close> returns (\<open>None\<close> for a null pointer) and
  \<open>getKeysByLoader\<close>; for \<open>backendRun\<close>, whether the service name is registered
  already and whether \<open>registerService\<close> and \<open>registerObject\<close> succeed.

  \<open>stale_read\<close> is the pointer that \<open>value.second\<close> yields at lines 102 and 103 of
  \<open>removePlugins\<close>. \<open>value\<close> is a reference to cell \<open>i\<close> of the list (line 86), and
  \<open>removeAt(i)\<close> (line 100) has removed that cell by then, so the source does not say what
  is read: with \<open>QList\<close>'s node storage the cell has been freed, with contiguous storage
  the entry that followed has moved into it. The answer is given the list after the
  removal, the index, and the pointer the cell held before.\<close>

record env =
  sys :: sys_env
  factory_create :: "key \<Rightarrow> bool"
  factory_keys :: "key list"
  thread_wait :: "handle \<Rightarrow> bool"
  stale_read :: "(key \<times> handle) list \<Rightarrow> nat \<Rightarrow> handle \<Rightarrow> handle"
  reloadLoader :: "loader \<Rightarrow> loader option"
  getKeysByLoader :: "loader \<Rightarrow> key list"
  isServiceRegistered :: bool
  registerService :: bool
  registerObject :: bool

text \<open>The state of the backend: the members \<open>hasconnected\<close> and \<open>server\<close> (whether the
  pointer is set, and whether the server runs), the file-level \<open>interfaceList\<close>, the
  number of interface objects constructed so far, and the calls made so far.\<close>

record backend =
  hasconnected :: bool
  server_set :: bool
  server_running :: bool
  interfaceList :: "(key \<times> handle) list"
  next_handle :: handle
  trace :: "action list"

definition emit :: "action list \<Rightarrow> backend \<Rightarrow> backend" where
  "emit t s = s\<lparr>trace := trace s @ t\<rparr>"

text \<open>Modelled from the spec: \<open>DASFactory::create\<close>, whose definition (dasfactory.cpp) is
  not among the sources. The specification gives it as \<open>create(key) -> handle-or-null\<close>
  and speaks of a freshly constructed handle: a call either returns null or constructs a
  new object, which the model names by the next unused number.\<close>

definition DASFactory_create :: "env \<Rightarrow> key \<Rightarrow> backend \<Rightarrow> handle option \<times> backend" where
  "DASFactory_create e key s =
     (if factory_create e key
      then (Some (next_handle s),
            emit [FactoryCreate key True] (s\<lparr>next_handle := Suc (next_handle s)\<rparr>))
      else (None, emit [FactoryCreate key False] s))"

definition addPlugin :: "env \<Rightarrow> key \<Rightarrow> backend \<Rightarrow> backend" where
  "addPlugin e key s =
     (case DASFactory_create e key s of
        (None, s1) \<Rightarrow> emit [QWarning [''interface is null, key:'', key]] s1
      | (Some interface, s1) \<Rightarrow>
          emit [Connect fileCreated interface,
                Connect fileDeleted interface,
                Connect fileRenamed interface]
            ((emit [NewThread interface, MoveToThread interface, ThreadStart interface,
                    ListAppend key interface] s1)
               \<lparr>interfaceList := interfaceList s1 @ [(key, interface)]\<rparr>))"

text \<open>\<open>QList::removeAt(i)\<close> for an index in range.\<close>

definition removeAt :: "nat \<Rightarrow> 'a list \<Rightarrow> 'a list" where
  "removeAt i xs = take i xs @ drop (Suc i) xs"

text \<open>The loop of \<open>removePlugins\<close>, from index \<open>i\<close> on. \<open>value\<close> refers to cell \<open>i\<close>
  of the list: up to line 100 it reads the entry there; lines 102 and 103 read it after
  \<open>removeAt(i)\<close> and get \<open>stale_read\<close>. After a removal \<open>--i\<close> and the loop's \<open>++i\<close>
  leave the index where it was.\<close>

function removePlugins_loop :: "env \<Rightarrow> key list \<Rightarrow> nat \<Rightarrow> backend \<Rightarrow> backend" where
  "removePlugins_loop e keys i s =
     (if i < length (interfaceList s) then
        (let val = interfaceList s ! i in
         if fst val \<notin> set keys then removePlugins_loop e keys (i + 1) s
         else
           (let t = snd val;
                waited = thread_wait e t;
                s1 = emit [ThreadQuit t, ThreadWait t waited] s
            in if \<not> waited then
                 removePlugins_loop e keys (i + 1)
                   (emit [QWarning [''failed on wait thread to quit, key:'', fst val]] s1)
               else
                 (let l' = removeAt i (interfaceList s1);
                      stale = stale_read e l' i (snd val)
                  in removePlugins_loop e keys i
                       (emit [Disconnect stale, DeleteLater stale]
                          ((emit [ListRemoveAt i] s1)\<lparr>interfaceList := l'\<rparr>)))))
      else s)"
  by pat_completeness auto
termination
  by (relation "measure (\<lambda>(e, keys, i, s). length (interfaceList s) - i)")
     (auto simp: emit_def removeAt_def)

declare removePlugins_loop.simps [simp del]

definition removePlugins :: "env \<Rightarrow> key list \<Rightarrow> backend \<Rightarrow> backend" where
  "removePlugins e keys s = removePlugins_loop e keys 0 s"

subsection \<open>Start-up and the handlers of the loader's signals\<close>

text \<open>The three lambdas that \<open>monitorStart\<close> connects to the plugin loader.\<close>

definition on_pluginRemoved :: "env \<Rightarrow> loader \<Rightarrow> key list \<Rightarrow> backend \<Rightarrow> backend" where
  "on_pluginRemoved e loader keys s = emit [RemoveLoader loader] (removePlugins e keys s)"

definition on_pluginModified :: "env \<Rightarrow> loader \<Rightarrow> key list \<Rightarrow> backend \<Rightarrow> backend" where
  "on_pluginModified e loader keys s =
     (let s1 = removePlugins e keys s;
          reloaded = reloadLoader e loader;
          s2 = emit [ReloadLoader loader (reloaded \<noteq> None)] s1
      in case reloaded of
           None \<Rightarrow> s2
         | Some loader' \<Rightarrow> foldl (\<lambda>s key. addPlugin e key s) s2 (getKeysByLoader e loader'))"

definition on_pluginAdded :: "env \<Rightarrow> key \<Rightarrow> backend \<Rightarrow> backend" where
  "on_pluginAdded e key s = addPlugin e key s"

text \<open>\<open>backendRun\<close>: the log appenders, then the registration on the system bus.\<close>

definition backendRun :: "env \<Rightarrow> backend \<Rightarrow> int \<times> backend" where
  "backendRun e s =
     (let s1 = emit [RegisterAppenders] s
      in if \<not> isServiceRegistered e then
           (if \<not> registerService e then
              (2, emit [RegisterService False,
                        QWarning [''Cannot register the '' @ [CHR 0x22] @ ''com.deepin.anything''
                                  @ [CHR 0x22] @ '' service.'' @ [CHR 0x0A]]] s1)
            else if \<not> registerObject e then
              (3, emit [RegisterService True, RegisterObject False,
                        QWarning [''Cannot register to the D-Bus object: '' @ [CHR 0x22]
                                  @ ''/com/deepin/anything'' @ [CHR 0x22] @ [CHR 0x0A]]] s1)
            else (0, emit [RegisterService True, RegisterObject True] s1))
         else (0, emit [QDebug [''deepin-anything-backend is running'']] s1))"

text \<open>\<open>monitorStart\<close>. The filter rule set under \<open>QT_NO_DEBUG\<close> only changes what is
  logged and is left out.\<close>

definition monitorStart :: "env \<Rightarrow> backend \<Rightarrow> int \<times> backend" where
  "monitorStart e s =
     (let (mount_ret, t) = writeMountInfo (sys e);
          s1 = emit ([SetMessagePattern] @ t) s;
          s2 = (if mount_ret \<noteq> Success
                then emit [QDebug [''write mountinfo failed, should try again latter.'']] s1
                else s1);
          s3 = (if \<not> server_set s2 then (emit [NewServer] s2)\<lparr>server_set := True\<rparr> else s2)
      in if server_set s3 \<and> \<not> server_running s3 then
           (let s4 = foldl (\<lambda>s key. addPlugin e key s) s3 (factory_keys e);
                s5 = emit [ConnectLoader pluginRemoved, ConnectLoader pluginModified,
                           ConnectLoader pluginAdded, ServerStart] s4
            in (0, s5\<lparr>server_running := True\<rparr>))
         else (0, s3))"

definition init_connection :: "env \<Rightarrow> backend \<Rightarrow> int \<times> backend" where
  "init_connection e s =
     (if hasconnected s then (0, s)
      else (case backendRun e s of
              (r, s1) \<Rightarrow>
                if r = 0 then
                  (case monitorStart e s1 of
                     (m, s2) \<Rightarrow> (0, s2\<lparr>hasconnected := True\<rparr>))
                else (- 1, s1)))"

subsection \<open>Sequences of registry operations\<close>

datatype op = Add key | Remove "key list"

fun apply_op :: "env \<Rightarrow> op \<Rightarrow> backend \<Rightarrow> backend" where
  "apply_op e (Add key) s = addPlugin e key s"
| "apply_op e (Remove keys) s = removePlugins e keys s"

text \<open>A run: each operation with the environment it meets.\<close>

fun run :: "(env \<times> op) list \<Rightarrow> backend \<Rightarrow> backend" where
  "run [] s = s"
| "run ((e, x) # ops) s = run ops (apply_op e x s)"

definition live_keys :: "backend \<Rightarrow> key set" where
  "live_keys s = fst ` set (interfaceList s)"

text \<open>The keys a run adds (the factory gave an interface), in order, and the keys it
  removes (an entry with the key is registered and the wait on its thread succeeds).\<close>

fun added_keys :: "(env \<times> op) list \<Rightarrow> key list" where
  "added_keys [] = []"
| "added_keys ((e, Add key) # ops) =
     (if factory_create e key then key # added_keys ops else added_keys ops)"
| "added_keys ((e, Remove keys) # ops) = added_keys ops"

definition removed_now :: "env \<Rightarrow> key list \<Rightarrow> backend \<Rightarrow> key set" where
  "removed_now e keys s =
     set (map fst (filter (\<lambda>kh. fst kh \<in> set keys \<and> thread_wait e (snd kh))
                     (interfaceList s)))"

fun removed_keys :: "(env \<times> op) list \<Rightarrow> backend \<Rightarrow> key set" where
  "removed_keys [] s = {}"
| "removed_keys ((e, Add key) # ops) s = removed_keys ops (addPlugin e key s)"
| "removed_keys ((e, Remove keys) # ops) s =
     removed_now e keys s \<union> removed_keys ops (removePlugins e keys s)"

text \<open>No operation of the run adds a key that is registered when it runs.\<close>

fun adds_unregistered :: "(env \<times> op) list \<Rightarrow> backend \<Rightarrow> bool" where
  "adds_unregistered [] s = True"
| "adds_unregistered ((e, Add key) # ops) s =
     (key \<notin> live_keys s \<and> adds_unregistered ops (addPlugin e key s))"
| "adds_unregistered ((e, Remove keys) # ops) s =
     adds_unregistered ops (removePlugins e keys s)"

text \<open>The state at process start.\<close>

definition init_backend :: backend where
  "init_backend =
     \<lparr>hasconnected = False, server_set = False, server_running = False,
      interfaceList = [], next_handle = 0, trace = []\<rparr>"

text \<open>Every interface in the list was constructed before.\<close>

definition handles_known :: "backend \<Rightarrow> bool" where
  "handles_known s = list_all (\<lambda>kh. snd kh < next_handle s) (interfaceList s)"

text \<open>The entries \<open>removePlugins\<close> keeps, and the calls it makes over the entries \<open>xs\<close>
  still to visit when the entries \<open>pre\<close> stand before them in the list.\<close>

definition kept :: "env \<Rightarrow> key list \<Rightarrow> (key \<times> handle) \<Rightarrow> bool" where
  "kept e keys kh = (fst kh \<in> set keys \<longrightarrow> \<not> thread_wait e (snd kh))"

fun removal_calls ::
  "env \<Rightarrow> key list \<Rightarrow> (key \<times> handle) list \<Rightarrow> (key \<times> handle) list \<Rightarrow> action list" where
  "removal_calls e keys pre [] = []"
| "removal_calls e keys pre (kh # xs) =
     (if fst kh \<notin> set keys then removal_calls e keys (pre @ [kh]) xs
      else if \<not> thread_wait e (snd kh) then
        [ThreadQuit (snd kh), ThreadWait (snd kh) False,
         QWarning [''failed on wait thread to quit, key:'', fst kh]]
        @ removal_calls e keys (pre @ [kh]) xs
      else
        [ThreadQuit (snd kh), ThreadWait (snd kh) True,
         ListRemoveAt (length pre),
         Disconnect (stale_read e (pre @ xs) (length pre) (snd kh)),
         DeleteLater (stale_read e (pre @ xs) (length pre) (snd kh))]
        @ removal_calls e keys pre xs)"

text \<open>An environment for a kernel 5.10.3 where the relay goes through.\<close>

definition relay_env :: sys_env where
  "relay_env = \<lparr>uname_release = Some ''5.10.3'', mountinfo = Some ''22 1 0:21 / /proc'',
                drv_open = True, drv_write = (\<lambda>d. int (length d))\<rparr>"

text \<open>An environment for a kernel 5.9.0 where neither file opens.\<close>

definition old_kernel_env :: sys_env where
  "old_kernel_env = \<lparr>uname_release = Some ''5.9.0'', mountinfo = None,
                     drv_open = False, drv_write = (\<lambda>d. - 1)\<rparr>"

text \<open>The version test on the first two components of a release, as the specification
  words it.\<close>

definition parsed_gate :: "string \<Rightarrow> bool" where
  "parsed_gate rel =
     (toInt (split_dot rel ! 0) > 5 \<or>
      (toInt (split_dot rel ! 0) = 5 \<and> toInt (split_dot rel ! 1) \<ge> 10))"

text \<open>Whether the relay is reached: the release is there, has three components and
  passes the version test.\<close>

definition relay_due :: "sys_env \<Rightarrow> bool" where
  "relay_due e =
     (case uname_release e of
        None \<Rightarrow> False
      | Some rel \<Rightarrow> 3 \<le> length (split_dot rel) \<and> parsed_gate rel)"

text \<open>An environment where the factory knows every key but one, the wait on the thread of
  interface 1 fails, the list is stored contiguously (the stale read finds the entry that
  followed the removed one, or the old pointer when there is none), and loader 7
  reloads; two plugins registered in it; a run of operations.\<close>

definition plugin_env :: env where
  "plugin_env =
     \<lparr>sys = relay_env,
      factory_create = (\<lambda>k. k \<noteq> ''none''),
      factory_keys = [''p1'', ''p2''],
      thread_wait = (\<lambda>h. h \<noteq> 1),
      stale_read = (\<lambda>l i old. if i < length l then snd (l ! i) else old),
      reloadLoader = (\<lambda>l. if l = 7 then Some 8 else None),
      getKeysByLoader = (\<lambda>l. [''p2'', ''none'']),
      isServiceRegistered = False,
      registerService = True,
      registerObject = True\<rparr>"

definition two_plugins :: backend where
  "two_plugins = run [(plugin_env, Add ''p1''), (plugin_env, Add ''p2'')] init_backend"

definition sample_ops :: "(env \<times> op) list" where
  "sample_ops =
     [(plugin_env, Remove [''p1'']), (plugin_env, Add ''p1''), (plugin_env, Add ''p2''),
      (plugin_env, Add ''none''), (plugin_env, Remove [''p1'', ''p2'', ''p3''])]"

section \<open>Properties\<close>

subsection \<open>Evaluation and stages of the mount relay\<close>

lemma toInt_5: "toInt ''5'' = 5" by code_simp
lemma toInt_9: "toInt ''9'' = 9" by code_simp
lemma toInt_10: "toInt ''10'' = 10" by code_simp
lemma toInt_a: "toInt ''a'' = 0" by code_simp
lemma toInt_b: "toInt ''b'' = 0" by code_simp
lemma split_590: "split_dot ''5.9.0'' = [''5'', ''9'', ''0'']" by simp
lemma split_5103: "split_dot ''5.10.3'' = [''5'', ''10'', ''3'']" by simp
lemma split_abc: "split_dot ''abc'' = [''abc'']" by simp
lemma split_a_b_c: "split_dot ''a.b.c'' = [''a'', ''b'', ''c'']" by simp

lemma relay_writes_append: "relay_writes (t @ u) = relay_writes t @ relay_writes u"
  by (induction t rule: relay_writes.induct) simp_all

lemma file_calls_append: "file_calls (t @ u) = file_calls t @ file_calls u"
  by (simp add: file_calls_def)

lemma relay_mountinfo_writes:
  "relay_writes (snd (relay_mountinfo e)) =
     (case mountinfo e of
        None \<Rightarrow> []
      | Some d \<Rightarrow> if drv_open e then [(d, drv_write e d)] else [])"
  by (simp add: relay_mountinfo_def Let_def split: option.split)

lemma relay_mountinfo_result:
  "fst (relay_mountinfo e) =
     (case mountinfo e of
        None \<Rightarrow> Some OpenSrcFileFail
      | Some d \<Rightarrow>
          if \<not> drv_open e then Some OpenDstFileFail
          else if drv_write e d \<noteq> int (length d) then Some WriteDstFileFail
          else None)"
  by (simp add: relay_mountinfo_def Let_def split: option.split)

lemma relay_mountinfo_file_calls: "file_calls (snd (relay_mountinfo e)) \<noteq> []"
  by (simp add: relay_mountinfo_def file_calls_def Let_def split: option.split)

text \<open>\<open>writeMountInfo\<close> stage by stage.\<close>

lemma writeMountInfo_no_uname:
  "uname_release e = None \<Longrightarrow> writeMountInfo e = (UnameFail, [SysUname, QWarning [''uname fail'']])"
  by (simp add: writeMountInfo_def)

lemma writeMountInfo_short:
  "uname_release e = Some rel \<Longrightarrow> length (split_dot rel) < 3 \<Longrightarrow>
   writeMountInfo e =
     (UnrecognizedVersion,
      [SysUname, QDebug [''the kernel version: '', rel],
       QWarning [''unrecognized version format, expect x.y.z'']])"
  by (simp add: writeMountInfo_def Let_def)

lemma writeMountInfo_old:
  "uname_release e = Some rel \<Longrightarrow> 3 \<le> length (split_dot rel) \<Longrightarrow>
   \<not> version_gate (toInt (split_dot rel ! 0)) (toInt (split_dot rel ! 1)) \<Longrightarrow>
   writeMountInfo e = (Success, [SysUname, QDebug [''the kernel version: '', rel]])"
  by (simp add: writeMountInfo_def Let_def)

lemma writeMountInfo_new:
  "uname_release e = Some rel \<Longrightarrow> 3 \<le> length (split_dot rel) \<Longrightarrow>
   version_gate (toInt (split_dot rel ! 0)) (toInt (split_dot rel ! 1)) \<Longrightarrow>
   writeMountInfo e =
     ((case fst (relay_mountinfo e) of Some err \<Rightarrow> err | None \<Rightarrow> Success),
      [SysUname, QDebug [''the kernel version: '', rel]] @ snd (relay_mountinfo e))"
  by (cases "relay_mountinfo e") (simp add: writeMountInfo_def Let_def split: option.split)

lemma version_gate_iff: "version_gate x y \<longleftrightarrow> x > 5 \<or> (x = 5 \<and> y \<ge> 10)"
  by (auto simp: version_gate_def)

text \<open>
  C7. The relay writes exactly when the kernel version passes the test \<open>MAJOR > 5\<close> or
  \<open>MAJOR = 5\<close> and \<open>MINOR \<ge> 10\<close> (and the release has three components, the mount
  table opens and the channel opens, without which no write is reached). For the
  release 5.9.0 nothing is written and the result is \<open>Success\<close>; for 5.10.3 with a
  mount table of \<open>N\<close> bytes that opens and a channel that opens and takes all of them,
  the one write is of these \<open>N\<close> bytes and the result is \<open>Success\<close>; for abc the result
  is \<open>UnrecognizedVersion\<close> and no file is opened, read or written.
\<close>

theorem writeMountInfo_writes_iff_gate:
  "(relay_writes (snd (writeMountInfo e)) \<noteq> [] \<longleftrightarrow>
      (\<exists>rel d. uname_release e = Some rel \<and> 3 \<le> length (split_dot rel) \<and>
         (toInt (split_dot rel ! 0) > 5 \<or>
          (toInt (split_dot rel ! 0) = 5 \<and> toInt (split_dot rel ! 1) \<ge> 10)) \<and>
         mountinfo e = Some d \<and> drv_open e))
   \<and> (uname_release e = Some ''5.9.0'' \<longrightarrow>
        fst (writeMountInfo e) = Success \<and> relay_writes (snd (writeMountInfo e)) = [])
   \<and> (uname_release e = Some ''5.10.3'' \<and> mountinfo e = Some d \<and> drv_open e \<and>
      drv_write e d = int (length d) \<longrightarrow>
        fst (writeMountInfo e) = Success \<and>
        relay_writes (snd (writeMountInfo e)) = [(d, int (length d))])
   \<and> (uname_release e = Some ''abc'' \<longrightarrow>
        fst (writeMountInfo e) = UnrecognizedVersion \<and>
        file_calls (snd (writeMountInfo e)) = [])"
proof (intro conjI)
  show "relay_writes (snd (writeMountInfo e)) \<noteq> [] \<longleftrightarrow>
      (\<exists>rel d. uname_release e = Some rel \<and> 3 \<le> length (split_dot rel) \<and>
         (toInt (split_dot rel ! 0) > 5 \<or>
          (toInt (split_dot rel ! 0) = 5 \<and> toInt (split_dot rel ! 1) \<ge> 10)) \<and>
         mountinfo e = Some d \<and> drv_open e)"
  proof (cases "uname_release e")
    case None
    then show ?thesis by (simp add: writeMountInfo_no_uname)
  next
    case (Some rel)
    show ?thesis
    proof (cases "length (split_dot rel) < 3")
      case True
      with Some show ?thesis by (simp add: writeMountInfo_short)
    next
      case False
      then have len: "3 \<le> length (split_dot rel)" by simp
      show ?thesis
      proof (cases "version_gate (toInt (split_dot rel ! 0)) (toInt (split_dot rel ! 1))")
        case True
        with Some len show ?thesis
          by (auto simp: writeMountInfo_new relay_mountinfo_writes version_gate_iff
                   split: option.splits)
      next
        case False
        with Some len show ?thesis
          by (auto simp: writeMountInfo_old version_gate_iff)
      qed
    qed
  qed
next
  show "uname_release e = Some ''5.9.0'' \<longrightarrow>
        fst (writeMountInfo e) = Success \<and> relay_writes (snd (writeMountInfo e)) = []"
  proof
    assume u: "uname_release e = Some ''5.9.0''"
    have "\<not> version_gate (toInt (split_dot ''5.9.0'' ! 0)) (toInt (split_dot ''5.9.0'' ! 1))"
      by (simp add: split_590 toInt_5 toInt_9 version_gate_def)
    with u have "writeMountInfo e = (Success, [SysUname, QDebug [''the kernel version: '', ''5.9.0'']])"
      by (intro writeMountInfo_old) (simp_all add: split_590)
    then show "fst (writeMountInfo e) = Success \<and> relay_writes (snd (writeMountInfo e)) = []"
      by simp
  qed
next
  show "uname_release e = Some ''5.10.3'' \<and> mountinfo e = Some d \<and> drv_open e \<and>
      drv_write e d = int (length d) \<longrightarrow>
        fst (writeMountInfo e) = Success \<and>
        relay_writes (snd (writeMountInfo e)) = [(d, int (length d))]"
  proof
    assume a: "uname_release e = Some ''5.10.3'' \<and> mountinfo e = Some d \<and> drv_open e \<and>
      drv_write e d = int (length d)"
    have g: "version_gate (toInt (split_dot ''5.10.3'' ! 0)) (toInt (split_dot ''5.10.3'' ! 1))"
      by (simp add: split_5103 toInt_5 toInt_10 version_gate_def)
    have "writeMountInfo e =
     ((case fst (relay_mountinfo e) of Some err \<Rightarrow> err | None \<Rightarrow> Success),
      [SysUname, QDebug [''the kernel version: '', ''5.10.3'']] @ snd (relay_mountinfo e))"
      using a g by (intro writeMountInfo_new) (simp_all add: split_5103)
    with a show "fst (writeMountInfo e) = Success \<and>
        relay_writes (snd (writeMountInfo e)) = [(d, int (length d))]"
      by (simp add: relay_mountinfo_result relay_mountinfo_writes)
  qed
next
  show "uname_release e = Some ''abc'' \<longrightarrow>
        fst (writeMountInfo e) = UnrecognizedVersion \<and>
        file_calls (snd (writeMountInfo e)) = []"
    by (simp add: writeMountInfo_short split_abc file_calls_def)
qed

theorem writeMountInfo_writes_iff_gate_witness:
  "fst (writeMountInfo relay_env) = Success \<and>
   relay_writes (snd (writeMountInfo relay_env)) = [(''22 1 0:21 / /proc'', 17)] \<and>
   fst (writeMountInfo (relay_env\<lparr>uname_release := Some ''5.9.0''\<rparr>)) = Success \<and>
   relay_writes (snd (writeMountInfo (relay_env\<lparr>uname_release := Some ''5.9.0''\<rparr>))) = [] \<and>
   fst (writeMountInfo (relay_env\<lparr>uname_release := Some ''abc''\<rparr>)) = UnrecognizedVersion \<and>
   file_calls (snd (writeMountInfo (relay_env\<lparr>uname_release := Some ''abc''\<rparr>))) = []"
  using writeMountInfo_writes_iff_gate [of relay_env "''22 1 0:21 / /proc''"]
        writeMountInfo_writes_iff_gate [of "relay_env\<lparr>uname_release := Some ''5.9.0''\<rparr>"]
        writeMountInfo_writes_iff_gate [of "relay_env\<lparr>uname_release := Some ''abc''\<rparr>"]
  by (simp add: relay_env_def)

subsection \<open>The results of the mount relay\<close>

text \<open>
  C8, with the six results listed one condition after the other and no version test: on
  a kernel 5.9.0 whose mount table does not open the list gives \<open>OpenSrcFileFail\<close>,
  while \<open>writeMountInfo\<close> returns \<open>Success\<close> without touching the file.
\<close>

theorem listed_result_counterexample:
  "fst (writeMountInfo old_kernel_env) = Success \<and>
   listed_result old_kernel_env = OpenSrcFileFail"
proof -
  have "uname_release old_kernel_env = Some ''5.9.0''"
    by (simp add: old_kernel_env_def)
  moreover have "\<not> version_gate (toInt (split_dot ''5.9.0'' ! 0)) (toInt (split_dot ''5.9.0'' ! 1))"
    by (simp add: split_590 toInt_5 toInt_9 version_gate_def)
  ultimately have "writeMountInfo old_kernel_env =
      (Success, [SysUname, QDebug [''the kernel version: '', ''5.9.0'']])"
    by (intro writeMountInfo_old) (simp_all add: split_590)
  moreover have "listed_result old_kernel_env = OpenSrcFileFail"
    by (simp add: listed_result_def old_kernel_env_def)
  ultimately show ?thesis by simp
qed

text \<open>The result alone, case by case.\<close>

lemma writeMountInfo_result_cases:
  "(fst (writeMountInfo e) = UnameFail \<longleftrightarrow> uname_release e = None)
   \<and> (fst (writeMountInfo e) = UnrecognizedVersion \<longleftrightarrow>
        (\<exists>rel. uname_release e = Some rel \<and> length (split_dot rel) < 3))
   \<and> (fst (writeMountInfo e) = OpenSrcFileFail \<longleftrightarrow>
        (\<exists>rel. uname_release e = Some rel \<and> 3 \<le> length (split_dot rel) \<and> parsed_gate rel \<and>
           mountinfo e = None))
   \<and> (fst (writeMountInfo e) = OpenDstFileFail \<longleftrightarrow>
        (\<exists>rel d. uname_release e = Some rel \<and> 3 \<le> length (split_dot rel) \<and> parsed_gate rel \<and>
           mountinfo e = Some d \<and> \<not> drv_open e))
   \<and> (fst (writeMountInfo e) = WriteDstFileFail \<longleftrightarrow>
        (\<exists>rel d. uname_release e = Some rel \<and> 3 \<le> length (split_dot rel) \<and> parsed_gate rel \<and>
           mountinfo e = Some d \<and> drv_open e \<and> drv_write e d \<noteq> int (length d)))
   \<and> (fst (writeMountInfo e) = Success \<longleftrightarrow>
        (\<exists>rel. uname_release e = Some rel \<and> 3 \<le> length (split_dot rel) \<and>
           (\<not> parsed_gate rel \<or>
            (\<exists>d. mountinfo e = Some d \<and> drv_open e \<and> drv_write e d = int (length d)))))"
proof (cases "uname_release e")
  case None
  then show ?thesis by (simp add: writeMountInfo_no_uname)
next
  case (Some rel)
  show ?thesis
  proof (cases "length (split_dot rel) < 3")
    case True
    with Some show ?thesis by (simp add: writeMountInfo_short)
  next
    case False
    then have len: "3 \<le> length (split_dot rel)" by simp
    show ?thesis
    proof (cases "parsed_gate rel")
      case True
      then have "version_gate (toInt (split_dot rel ! 0)) (toInt (split_dot rel ! 1))"
        by (simp add: parsed_gate_def version_gate_iff)
      with Some len have "fst (writeMountInfo e) =
          (case fst (relay_mountinfo e) of Some err \<Rightarrow> err | None \<Rightarrow> Success)"
        by (simp add: writeMountInfo_new)
      with Some len True show ?thesis
        by (auto simp: relay_mountinfo_result split: option.splits)
    next
      case False
      then have "\<not> version_gate (toInt (split_dot rel ! 0)) (toInt (split_dot rel ! 1))"
        by (simp add: parsed_gate_def version_gate_iff)
      with Some len have "fst (writeMountInfo e) = Success"
        by (simp add: writeMountInfo_old)
      with Some len False show ?thesis by simp
    qed
  qed
qed

text \<open>The calls on files, case by case.\<close>

lemma relay_due_iff:
  "relay_due e \<longleftrightarrow>
     (\<exists>rel. uname_release e = Some rel \<and> 3 \<le> length (split_dot rel) \<and> parsed_gate rel)"
  by (auto simp: relay_due_def split: option.splits)

lemma parsed_gate_version_gate:
  "parsed_gate rel = version_gate (toInt (split_dot rel ! 0)) (toInt (split_dot rel ! 1))"
  by (simp add: parsed_gate_def version_gate_iff)

lemma file_calls_relay_mountinfo:
  "file_calls (snd (relay_mountinfo e)) =
     (case mountinfo e of
        None \<Rightarrow> [FileOpen file_mountinfo_path [ReadOnly, Text] False]
      | Some d \<Rightarrow>
          [FileOpen file_mountinfo_path [ReadOnly, Text] True,
           FileReadAll file_mountinfo_path, FileClose file_mountinfo_path]
          @ (if \<not> drv_open e
             then [FileOpen file_drv_path [ExistingOnly, WriteOnly, Text] False]
             else [FileOpen file_drv_path [ExistingOnly, WriteOnly, Text] True,
                   FileWrite file_drv_path d (drv_write e d)]
                  @ (if drv_write e d = int (length d) then [FileClose file_drv_path] else [])))"
  by (simp add: relay_mountinfo_def file_calls_def Let_def split: option.split)

lemma paths_differ: "file_mountinfo_path \<noteq> file_drv_path"
  by (simp add: file_mountinfo_path_def file_drv_path_def)

lemma open_modes_relay_mountinfo:
  "open_modes file_drv_path (snd (relay_mountinfo e)) =
     (if mountinfo e \<noteq> None then [[ExistingOnly, WriteOnly, Text]] else [])"
  using paths_differ
  by (simp add: relay_mountinfo_def Let_def split: option.split)

lemma writeMountInfo_due:
  assumes "relay_due e"
  shows "file_calls (snd (writeMountInfo e)) = file_calls (snd (relay_mountinfo e))"
    and "open_modes p (snd (writeMountInfo e)) = open_modes p (snd (relay_mountinfo e))"
proof -
  from assms obtain rel where r: "uname_release e = Some rel" "3 \<le> length (split_dot rel)"
      "version_gate (toInt (split_dot rel ! 0)) (toInt (split_dot rel ! 1))"
    by (auto simp: relay_due_iff parsed_gate_version_gate)
  then have t: "snd (writeMountInfo e) =
      [SysUname, QDebug [''the kernel version: '', rel]] @ snd (relay_mountinfo e)"
    by (simp add: writeMountInfo_new)
  show "file_calls (snd (writeMountInfo e)) = file_calls (snd (relay_mountinfo e))"
    by (simp add: t file_calls_def)
  show "open_modes p (snd (writeMountInfo e)) = open_modes p (snd (relay_mountinfo e))"
    by (simp add: t)
qed

lemma writeMountInfo_not_due:
  assumes "\<not> relay_due e"
  shows "file_calls (snd (writeMountInfo e)) = []"
    and "open_modes p (snd (writeMountInfo e)) = []"
proof -
  have "file_calls (snd (writeMountInfo e)) = [] \<and> open_modes p (snd (writeMountInfo e)) = []"
  proof (cases "uname_release e")
    case None
    then show ?thesis by (simp add: writeMountInfo_no_uname file_calls_def)
  next
    case (Some rel)
    show ?thesis
    proof (cases "length (split_dot rel) < 3")
      case True
      with Some show ?thesis by (simp add: writeMountInfo_short file_calls_def)
    next
      case False
      with Some assms
      have "\<not> version_gate (toInt (split_dot rel ! 0)) (toInt (split_dot rel ! 1))"
        by (simp add: relay_due_iff parsed_gate_version_gate)
      with Some False show ?thesis by (simp add: writeMountInfo_old file_calls_def)
    qed
  qed
  then show "file_calls (snd (writeMountInfo e)) = []"
    and "open_modes p (snd (writeMountInfo e)) = []" by simp_all
qed

lemma writeMountInfo_file_calls:
  "file_calls (snd (writeMountInfo e)) =
     (if \<not> relay_due e then []
      else case mountinfo e of
        None \<Rightarrow> [FileOpen file_mountinfo_path [ReadOnly, Text] False]
      | Some d \<Rightarrow>
          [FileOpen file_mountinfo_path [ReadOnly, Text] True,
           FileReadAll file_mountinfo_path, FileClose file_mountinfo_path]
          @ (if \<not> drv_open e
             then [FileOpen file_drv_path [ExistingOnly, WriteOnly, Text] False]
             else [FileOpen file_drv_path [ExistingOnly, WriteOnly, Text] True,
                   FileWrite file_drv_path d (drv_write e d)]
                  @ (if drv_write e d = int (length d) then [FileClose file_drv_path] else [])))"
proof (cases "relay_due e")
  case True
  then show ?thesis
    by (simp only: writeMountInfo_due(1) [OF True] file_calls_relay_mountinfo simp_thms if_False)
next
  case False
  then show ?thesis by (simp add: writeMountInfo_not_due(1))
qed

lemma writeMountInfo_open_modes:
  "open_modes file_drv_path (snd (writeMountInfo e)) =
     (if relay_due e \<and> mountinfo e \<noteq> None then [[ExistingOnly, WriteOnly, Text]] else [])"
proof (cases "relay_due e")
  case True
  then show ?thesis
    by (simp add: writeMountInfo_due(2) [OF True] open_modes_relay_mountinfo)
next
  case False
  then show ?thesis by (simp add: writeMountInfo_not_due(2))
qed

text \<open>
  C8, amended. \<open>writeMountInfo\<close> returns exactly one of the six results:
  \<open>UnameFail\<close> when the release is unavailable; \<open>UnrecognizedVersion\<close> when it has
  fewer than three components; \<open>Success\<close>, with no file touched, when the release
  fails the version test; and, only when the version test holds, \<open>OpenSrcFileFail\<close>
  when the mount table does not open, \<open>OpenDstFileFail\<close> when the channel does not
  open, \<open>WriteDstFileFail\<close> when \<open>write\<close> does not return the length of the snapshot,
  \<open>Success\<close> otherwise. The calls on files are exactly these: the mount table is opened
  read-only, read and closed; the channel is opened, only ever in a mode with
  \<open>ExistingOnly\<close>, which does not create it; the snapshot is written in one \<open>write\<close>,
  whose return value is the one compared with the length; the channel is closed when
  they agree.
\<close>

theorem writeMountInfo_results:
  "(fst (writeMountInfo e) = UnameFail \<longleftrightarrow> uname_release e = None)
   \<and> (fst (writeMountInfo e) = UnrecognizedVersion \<longleftrightarrow>
        (\<exists>rel. uname_release e = Some rel \<and> length (split_dot rel) < 3))
   \<and> (fst (writeMountInfo e) = OpenSrcFileFail \<longleftrightarrow>
        (\<exists>rel. uname_release e = Some rel \<and> 3 \<le> length (split_dot rel) \<and> parsed_gate rel \<and>
           mountinfo e = None))
   \<and> (fst (writeMountInfo e) = OpenDstFileFail \<longleftrightarrow>
        (\<exists>rel d. uname_release e = Some rel \<and> 3 \<le> length (split_dot rel) \<and> parsed_gate rel \<and>
           mountinfo e = Some d \<and> \<not> drv_open e))
   \<and> (fst (writeMountInfo e) = WriteDstFileFail \<longleftrightarrow>
        (\<exists>rel d. uname_release e = Some rel \<and> 3 \<le> length (split_dot rel) \<and> parsed_gate rel \<and>
           mountinfo e = Some d \<and> drv_open e \<and> drv_write e d \<noteq> int (length d)))
   \<and> (fst (writeMountInfo e) = Success \<longleftrightarrow>
        (\<exists>rel. uname_release e = Some rel \<and> 3 \<le> length (split_dot rel) \<and>
           (\<not> parsed_gate rel \<or>
            (\<exists>d. mountinfo e = Some d \<and> drv_open e \<and> drv_write e d = int (length d)))))
   \<and> (\<forall>rel. uname_release e = Some rel \<and> 3 \<le> length (split_dot rel) \<and> \<not> parsed_gate rel \<longrightarrow>
        fst (writeMountInfo e) = Success \<and> file_calls (snd (writeMountInfo e)) = [])
   \<and> file_calls (snd (writeMountInfo e)) =
       (if \<not> relay_due e then []
        else case mountinfo e of
          None \<Rightarrow> [FileOpen file_mountinfo_path [ReadOnly, Text] False]
        | Some d \<Rightarrow>
            [FileOpen file_mountinfo_path [ReadOnly, Text] True,
             FileReadAll file_mountinfo_path, FileClose file_mountinfo_path]
            @ (if \<not> drv_open e
               then [FileOpen file_drv_path [ExistingOnly, WriteOnly, Text] False]
               else [FileOpen file_drv_path [ExistingOnly, WriteOnly, Text] True,
                     FileWrite file_drv_path d (drv_write e d)]
                    @ (if drv_write e d = int (length d) then [FileClose file_drv_path]
                       else [])))
   \<and> open_modes file_drv_path (snd (writeMountInfo e)) =
       (if relay_due e \<and> mountinfo e \<noteq> None then [[ExistingOnly, WriteOnly, Text]] else [])"
proof -
  note six = writeMountInfo_result_cases [of e]
  have old: "\<forall>rel. uname_release e = Some rel \<and> 3 \<le> length (split_dot rel) \<and>
      \<not> parsed_gate rel \<longrightarrow>
        fst (writeMountInfo e) = Success \<and> file_calls (snd (writeMountInfo e)) = []"
  proof (intro allI impI)
    fix rel
    assume a: "uname_release e = Some rel \<and> 3 \<le> length (split_dot rel) \<and> \<not> parsed_gate rel"
    then have "writeMountInfo e = (Success, [SysUname, QDebug [''the kernel version: '', rel]])"
      by (simp add: writeMountInfo_old parsed_gate_version_gate)
    then show "fst (writeMountInfo e) = Success \<and> file_calls (snd (writeMountInfo e)) = []"
      by (simp add: file_calls_def)
  qed
  from six old writeMountInfo_file_calls [of e] writeMountInfo_open_modes [of e]
  show ?thesis
    by (elim conjE) (intro conjI, assumption+)
qed

theorem writeMountInfo_results_witness:
  "fst (writeMountInfo old_kernel_env) = Success \<and>
   file_calls (snd (writeMountInfo old_kernel_env)) = [] \<and>
   fst (writeMountInfo (relay_env\<lparr>drv_write := (\<lambda>d. 3)\<rparr>)) = WriteDstFileFail \<and>
   open_modes file_drv_path (snd (writeMountInfo relay_env)) =
     [[ExistingOnly, WriteOnly, Text]]"
proof (intro conjI)
  have "\<not> parsed_gate ''5.9.0''"
    by (simp add: parsed_gate_def split_590 toInt_5 toInt_9)
  then have a: "uname_release old_kernel_env = Some ''5.9.0'' \<and>
      3 \<le> length (split_dot ''5.9.0'') \<and> \<not> parsed_gate ''5.9.0''"
    by (simp add: old_kernel_env_def split_590)
  note gate_fails = writeMountInfo_results [of old_kernel_env, THEN conjunct2, THEN conjunct2,
          THEN conjunct2, THEN conjunct2, THEN conjunct2, THEN conjunct2, THEN conjunct1,
          THEN spec, THEN mp, OF a]
  show "fst (writeMountInfo old_kernel_env) = Success"
    using gate_fails by (rule conjunct1)
  show "file_calls (snd (writeMountInfo old_kernel_env)) = []"
    using gate_fails by (rule conjunct2)
next
  let ?e = "relay_env\<lparr>drv_write := (\<lambda>d. 3)\<rparr>"
  have "parsed_gate ''5.10.3''"
    by (simp add: parsed_gate_def split_5103 toInt_5 toInt_10)
  then have "uname_release ?e = Some ''5.10.3'' \<and> 3 \<le> length (split_dot ''5.10.3'') \<and>
           parsed_gate ''5.10.3'' \<and> mountinfo ?e = Some ''22 1 0:21 / /proc'' \<and> drv_open ?e \<and>
           drv_write ?e ''22 1 0:21 / /proc'' \<noteq> int (length ''22 1 0:21 / /proc'')"
    by (simp add: relay_env_def split_5103)
  then have "\<exists>rel d. uname_release ?e = Some rel \<and> 3 \<le> length (split_dot rel) \<and>
           parsed_gate rel \<and> mountinfo ?e = Some d \<and> drv_open ?e \<and>
           drv_write ?e d \<noteq> int (length d)"
    by (intro exI)
  then show "fst (writeMountInfo ?e) = WriteDstFileFail"
    by (rule writeMountInfo_results [of ?e, THEN conjunct2, THEN conjunct2,
          THEN conjunct2, THEN conjunct2, THEN conjunct1, THEN iffD2])
next
  have "parsed_gate ''5.10.3''"
    by (simp add: parsed_gate_def split_5103 toInt_5 toInt_10)
  then have d: "relay_due relay_env \<and> mountinfo relay_env \<noteq> None"
    by (simp add: relay_due_def relay_env_def split_5103)
  show "open_modes file_drv_path (snd (writeMountInfo relay_env)) =
     [[ExistingOnly, WriteOnly, Text]]"
    using d writeMountInfo_results [of relay_env, THEN conjunct2, THEN conjunct2,
          THEN conjunct2, THEN conjunct2, THEN conjunct2, THEN conjunct2, THEN conjunct2,
          THEN conjunct2]
    by simp
qed

subsection \<open>Components that are not numbers\<close>

lemma toInt_not_decimal: "\<not> decimal_integer s \<Longrightarrow> toInt s = 0"
  by (simp add: toInt_def toIntegral_def)

lemma not_decimal_a: "\<not> decimal_integer ''a''" by code_simp
lemma not_decimal_b: "\<not> decimal_integer ''b''" by code_simp

lemma not_decimal_x: "\<not> decimal_integer ''x''" by code_simp
lemma toInt_6: "toInt ''6'' = 6" by code_simp
lemma split_6x0: "split_dot ''6.x.0'' = [''6'', ''x'', ''0'']" by simp

text \<open>
  C10. A component that is not a decimal integer is read as 0 by \<open>toInt\<close>, and the
  release is not rejected. When it is the first component the version test fails: the
  result is \<open>Success\<close> and no file is touched. When it is the second, the test is
  \<open>MAJOR \<ge> 6\<close>. The release a.b.c gives \<open>Success\<close> with no file touched.
\<close>

theorem writeMountInfo_component_not_integer:
  "(\<not> decimal_integer s \<longrightarrow> toInt s = 0)
   \<and> (uname_release e = Some rel \<and> 3 \<le> length (split_dot rel) \<and>
      \<not> decimal_integer (split_dot rel ! 0) \<longrightarrow>
        fst (writeMountInfo e) = Success \<and> file_calls (snd (writeMountInfo e)) = [])
   \<and> (uname_release e = Some rel \<and> 3 \<le> length (split_dot rel) \<and>
      \<not> decimal_integer (split_dot rel ! 1) \<longrightarrow>
        fst (writeMountInfo e) \<noteq> UnrecognizedVersion \<and>
        (file_calls (snd (writeMountInfo e)) = [] \<longleftrightarrow> toInt (split_dot rel ! 0) < 6) \<and>
        (toInt (split_dot rel ! 0) < 6 \<longrightarrow> fst (writeMountInfo e) = Success))
   \<and> (uname_release e = Some ''a.b.c'' \<longrightarrow>
        fst (writeMountInfo e) = Success \<and> file_calls (snd (writeMountInfo e)) = [])"
proof (intro conjI impI)
  assume "\<not> decimal_integer s"
  then show "toInt s = 0" by (rule toInt_not_decimal)
next
  assume a: "uname_release e = Some rel \<and> 3 \<le> length (split_dot rel) \<and>
      \<not> decimal_integer (split_dot rel ! 0)"
  then have "toInt (split_dot rel ! 0) = 0" by (simp add: toInt_not_decimal)
  then have "\<not> version_gate (toInt (split_dot rel ! 0)) (toInt (split_dot rel ! 1))"
    by (simp add: version_gate_def)
  with a have w: "writeMountInfo e = (Success, [SysUname, QDebug [''the kernel version: '', rel]])"
    by (simp add: writeMountInfo_old)
  show "fst (writeMountInfo e) = Success" using w by simp
  show "file_calls (snd (writeMountInfo e)) = []" using w by (simp add: file_calls_def)
next
  assume a: "uname_release e = Some rel \<and> 3 \<le> length (split_dot rel) \<and>
      \<not> decimal_integer (split_dot rel ! 1)"
  then have y: "toInt (split_dot rel ! 1) = 0" by (simp add: toInt_not_decimal)
  have g: "version_gate (toInt (split_dot rel ! 0)) (toInt (split_dot rel ! 1)) \<longleftrightarrow>
           \<not> toInt (split_dot rel ! 0) < 6"
    using y by (auto simp: version_gate_def)
  show "fst (writeMountInfo e) \<noteq> UnrecognizedVersion"
    using a writeMountInfo_old [of e rel] writeMountInfo_new [of e rel]
    by (cases "version_gate (toInt (split_dot rel ! 0)) (toInt (split_dot rel ! 1))")
       (auto simp: relay_mountinfo_result split: option.splits)
  show "file_calls (snd (writeMountInfo e)) = [] \<longleftrightarrow> toInt (split_dot rel ! 0) < 6"
  proof (cases "version_gate (toInt (split_dot rel ! 0)) (toInt (split_dot rel ! 1))")
    case True
    with a have "snd (writeMountInfo e) =
        [SysUname, QDebug [''the kernel version: '', rel]] @ snd (relay_mountinfo e)"
      by (simp add: writeMountInfo_new)
    then have "file_calls (snd (writeMountInfo e)) = file_calls (snd (relay_mountinfo e))"
      by (simp add: file_calls_def)
    with True g show ?thesis by (simp add: relay_mountinfo_file_calls)
  next
    case False
    with a have "snd (writeMountInfo e) = [SysUname, QDebug [''the kernel version: '', rel]]"
      by (simp add: writeMountInfo_old)
    with False g show ?thesis by (simp add: file_calls_def)
  qed
  show "fst (writeMountInfo e) = Success" if "toInt (split_dot rel ! 0) < 6"
    using that a g by (simp add: writeMountInfo_old)
next
  assume u: "uname_release e = Some ''a.b.c''"
  have "\<not> version_gate (toInt (split_dot ''a.b.c'' ! 0)) (toInt (split_dot ''a.b.c'' ! 1))"
    by (simp add: split_a_b_c toInt_a toInt_b version_gate_def)
  with u have w: "writeMountInfo e = (Success, [SysUname, QDebug [''the kernel version: '', ''a.b.c'']])"
    by (intro writeMountInfo_old) (simp_all add: split_a_b_c)
  show "fst (writeMountInfo e) = Success" using w by simp
  show "file_calls (snd (writeMountInfo e)) = []" using w by (simp add: file_calls_def)
qed

theorem writeMountInfo_component_not_integer_witness:
  "toInt ''a'' = 0 \<and>
   fst (writeMountInfo (relay_env\<lparr>uname_release := Some ''a.b.c''\<rparr>)) = Success \<and>
   file_calls (snd (writeMountInfo (relay_env\<lparr>uname_release := Some ''a.b.c''\<rparr>))) = [] \<and>
   fst (writeMountInfo (relay_env\<lparr>uname_release := Some ''6.x.0''\<rparr>)) \<noteq> UnrecognizedVersion \<and>
   file_calls (snd (writeMountInfo (relay_env\<lparr>uname_release := Some ''6.x.0''\<rparr>))) \<noteq> []"
  using writeMountInfo_component_not_integer
          [of "''a''" "relay_env\<lparr>uname_release := Some ''a.b.c''\<rparr>" "''a.b.c''"]
        writeMountInfo_component_not_integer
          [of "''x''" "relay_env\<lparr>uname_release := Some ''6.x.0''\<rparr>" "''6.x.0''"]
  by (simp add: split_a_b_c split_6x0 not_decimal_a not_decimal_b not_decimal_x toInt_6)

subsection \<open>The loop of \<open>removePlugins\<close> in closed form\<close>

text \<open>\<open>removePlugins\<close> keeps the entries whose key is not asked for or whose thread does
  not finish, in their order, and makes the calls of \<open>removal_calls\<close>.\<close>

lemma removeAt_take: "i < length xs \<Longrightarrow> take i (removeAt i xs) = take i xs"
  by (simp add: removeAt_def)

lemma removeAt_drop: "i < length xs \<Longrightarrow> drop i (removeAt i xs) = drop (Suc i) xs"
  by (simp add: removeAt_def)

lemma removePlugins_loop_eq:
  "removePlugins_loop e keys i s =
     s\<lparr>interfaceList :=
         take i (interfaceList s) @ filter (kept e keys) (drop i (interfaceList s)),
       trace := trace s @
         removal_calls e keys (take i (interfaceList s)) (drop i (interfaceList s))\<rparr>"
proof (induction e keys i s rule: removePlugins_loop.induct)
  case (1 e keys i s)
  let ?l = "interfaceList s"
  show ?case
  proof (cases "i < length ?l")
    case False
    then show ?thesis
      by (subst removePlugins_loop.simps) simp
  next
    case True
    then have dr: "drop i ?l = ?l ! i # drop (Suc i) ?l"
      by (simp add: Cons_nth_drop_Suc)
    have tk: "take (Suc i) ?l = take i ?l @ [?l ! i]"
      using True by (simp add: take_Suc_conv_app_nth)
    show ?thesis
    proof (cases "fst (?l ! i) \<in> set keys")
      case False
      then have k: "kept e keys (?l ! i)" by (simp add: kept_def)
      have "removePlugins_loop e keys i s = removePlugins_loop e keys (i + 1) s"
        using True False by (subst removePlugins_loop.simps) (simp add: Let_def)
      also have "\<dots> = s\<lparr>interfaceList :=
         take (i + 1) ?l @ filter (kept e keys) (drop (i + 1) ?l),
         trace := trace s @ removal_calls e keys (take (i + 1) ?l) (drop (i + 1) ?l)\<rparr>"
        using "1.IH"(1) [OF True refl False] by simp
      finally show ?thesis using False k by (simp add: dr tk)
    next
      case inkeys: True
      show ?thesis
      proof (cases "thread_wait e (snd (?l ! i))")
        case False
        then have k: "kept e keys (?l ! i)" by (simp add: kept_def)
        let ?s' = "emit [QWarning [''failed on wait thread to quit, key:'', fst (?l ! i)]]
                    (emit [ThreadQuit (snd (?l ! i)), ThreadWait (snd (?l ! i)) False] s)"
        have "removePlugins_loop e keys i s = removePlugins_loop e keys (i + 1) ?s'"
          using True inkeys False by (subst removePlugins_loop.simps) (simp add: Let_def)
        also have "\<dots> = ?s'\<lparr>interfaceList :=
           take (i + 1) (interfaceList ?s') @ filter (kept e keys) (drop (i + 1) (interfaceList ?s')),
           trace := trace ?s' @ removal_calls e keys (take (i + 1) (interfaceList ?s'))
                                  (drop (i + 1) (interfaceList ?s'))\<rparr>"
          using "1.IH"(2) [OF True refl _ refl refl refl] inkeys False by simp
        finally show ?thesis using inkeys False k by (simp add: dr tk emit_def)
      next
        case waited: True
        then have k: "\<not> kept e keys (?l ! i)" using inkeys by (simp add: kept_def)
        let ?s1 = "emit [ThreadQuit (snd (?l ! i)), ThreadWait (snd (?l ! i)) True] s"
        let ?p = "stale_read e (removeAt i ?l) i (snd (?l ! i))"
        let ?s' = "emit [Disconnect ?p, DeleteLater ?p]
                    ((emit [ListRemoveAt i] ?s1)\<lparr>interfaceList := removeAt i ?l\<rparr>)"
        have "removePlugins_loop e keys i s = removePlugins_loop e keys i ?s'"
          using True inkeys waited
          by (subst removePlugins_loop.simps) (simp add: Let_def emit_def)
        also have "\<dots> = ?s'\<lparr>interfaceList :=
           take i (interfaceList ?s') @ filter (kept e keys) (drop i (interfaceList ?s')),
           trace := trace ?s' @ removal_calls e keys (take i (interfaceList ?s'))
                                  (drop i (interfaceList ?s'))\<rparr>"
          using "1.IH"(3) [OF True refl _ refl refl refl _ refl refl] inkeys waited
          by (simp add: emit_def)
        moreover have "removeAt i ?l = take i ?l @ drop (Suc i) ?l"
          by (simp add: removeAt_def)
        ultimately show ?thesis
          using inkeys waited k True
          by (simp add: dr emit_def removeAt_take removeAt_drop)
      qed
    qed
  qed
qed

lemma removePlugins_eq:
  "removePlugins e keys s =
     s\<lparr>interfaceList := filter (kept e keys) (interfaceList s),
       trace := trace s @ removal_calls e keys [] (interfaceList s)\<rparr>"
  by (simp add: removePlugins_def removePlugins_loop_eq)

lemma interfaceList_removePlugins:
  "interfaceList (removePlugins e keys s) = filter (kept e keys) (interfaceList s)"
  by (simp add: removePlugins_eq)

lemma next_handle_removePlugins: "next_handle (removePlugins e keys s) = next_handle s"
  by (simp add: removePlugins_eq)

lemma hasconnected_removePlugins: "hasconnected (removePlugins e keys s) = hasconnected s"
  by (simp add: removePlugins_eq)

lemma interfaceList_addPlugin:
  "interfaceList (addPlugin e key s) =
     (if factory_create e key then interfaceList s @ [(key, next_handle s)]
      else interfaceList s)"
  by (simp add: addPlugin_def DASFactory_create_def emit_def)

lemma next_handle_addPlugin:
  "next_handle (addPlugin e key s) =
     (if factory_create e key then Suc (next_handle s) else next_handle s)"
  by (simp add: addPlugin_def DASFactory_create_def emit_def)

lemma hasconnected_addPlugin: "hasconnected (addPlugin e key s) = hasconnected s"
  by (simp add: addPlugin_def DASFactory_create_def emit_def)

lemma trace_addPlugin: "\<exists>t. trace (addPlugin e key s) = trace s @ t"
  by (simp add: addPlugin_def DASFactory_create_def emit_def)

lemma live_keys_addPlugin:
  "live_keys (addPlugin e key s) =
     (if factory_create e key then insert key (live_keys s) else live_keys s)"
  by (simp add: live_keys_def interfaceList_addPlugin)

lemma interfaceList_two_plugins: "interfaceList two_plugins = [(''p1'', 0), (''p2'', 1)]"
  by (simp add: two_plugins_def init_backend_def interfaceList_addPlugin next_handle_addPlugin
        plugin_env_def)

lemma next_handle_two_plugins: "next_handle two_plugins = 2"
  by (simp add: two_plugins_def init_backend_def next_handle_addPlugin plugin_env_def)

subsection \<open>A thread that does not finish\<close>

lemma removal_calls_QWarning:
  "(k, h) \<in> set xs \<Longrightarrow> k \<in> set keys \<Longrightarrow> \<not> thread_wait e h \<Longrightarrow>
   QWarning [''failed on wait thread to quit, key:'', k] \<in> set (removal_calls e keys pre xs)"
  by (induction xs arbitrary: pre) auto

lemma filter_stuck_kept:
  "filter (\<lambda>kh. \<not> thread_wait e (snd kh)) (filter (kept e keys) xs) =
   filter (\<lambda>kh. \<not> thread_wait e (snd kh)) xs"
  by (induction xs) (auto simp: kept_def)

text \<open>What holds whatever the stale read yields: an entry asked to be removed whose \<open>wait\<close>
  returns false stays in the list, as every entry whose thread does not finish does,
  and the warning with its key is logged.\<close>

lemma removePlugins_stuck_entry_stays:
  assumes "(k, h) \<in> set (interfaceList s)" and "k \<in> set keys" and "\<not> thread_wait e h"
  shows "(k, h) \<in> set (interfaceList (removePlugins e keys s)) \<and>
         filter (\<lambda>kh. \<not> thread_wait e (snd kh)) (interfaceList (removePlugins e keys s)) =
         filter (\<lambda>kh. \<not> thread_wait e (snd kh)) (interfaceList s) \<and>
         (\<exists>t. trace (removePlugins e keys s) = trace s @ t \<and>
              QWarning [''failed on wait thread to quit, key:'', k] \<in> set t)"
proof (intro conjI)
  show "(k, h) \<in> set (interfaceList (removePlugins e keys s))"
    using assms by (simp add: removePlugins_eq kept_def)
  show "filter (\<lambda>kh. \<not> thread_wait e (snd kh)) (interfaceList (removePlugins e keys s)) =
         filter (\<lambda>kh. \<not> thread_wait e (snd kh)) (interfaceList s)"
    using filter_stuck_kept [of e keys "interfaceList s"]
    by (simp add: removePlugins_eq del: filter_filter)
  have "trace (removePlugins e keys s) = trace s @ removal_calls e keys [] (interfaceList s)"
    by (simp add: removePlugins_eq)
  moreover have "QWarning [''failed on wait thread to quit, key:'', k]
                   \<in> set (removal_calls e keys [] (interfaceList s))"
    using assms by (rule removal_calls_QWarning)
  ultimately show "\<exists>t. trace (removePlugins e keys s) = trace s @ t \<and>
              QWarning [''failed on wait thread to quit, key:'', k] \<in> set t"
    by blast
qed


subsection \<open>The order of the calls of a removal\<close>

text \<open>
  C3. For the one entry of key p1 that \<open>removePlugins\<close> removes from the two registered,
  the calls are, in this order: \<open>quit\<close>, \<open>wait\<close>, \<open>removeAt\<close>, \<open>disconnect\<close>,
  \<open>deleteLater\<close>, whatever the stale read \<open>r\<close> yields. The entry leaves the list before
  its callbacks are disconnected and its interface is handed to \<open>deleteLater\<close>, not
  after, and these two calls get the pointer read through the reference to the removed
  cell.
\<close>

theorem removePlugins_order_of_calls:
  "trace (removePlugins (plugin_env\<lparr>stale_read := r\<rparr>) [''p1''] two_plugins) =
     trace two_plugins @
     [ThreadQuit 0, ThreadWait 0 True, ListRemoveAt 0,
      Disconnect (r [(''p2'', 1)] 0 0), DeleteLater (r [(''p2'', 1)] 0 0)] \<and>
   interfaceList (removePlugins (plugin_env\<lparr>stale_read := r\<rparr>) [''p1''] two_plugins) =
     [(''p2'', 1)]"
  by (simp add: removePlugins_eq interfaceList_two_plugins plugin_env_def kept_def)

subsection \<open>The keys of the registry after a run\<close>

lemma live_keys_removePlugins:
  assumes "distinct (map fst (interfaceList s))"
  shows "live_keys (removePlugins e keys s) = live_keys s - removed_now e keys s"
proof -
  let ?l = "interfaceList s"
  let ?gone = "{kh \<in> set ?l. fst kh \<in> set keys \<and> thread_wait e (snd kh)}"
  have inj: "inj_on fst (set ?l)"
    using assms by (simp add: distinct_map)
  have gone: "?gone \<subseteq> set ?l"
    by blast
  have "set (filter (kept e keys) ?l) = set ?l - ?gone"
    by (auto simp: kept_def)
  then have "fst ` set (filter (kept e keys) ?l) = fst ` set ?l - fst ` ?gone"
    using inj_on_image_set_diff [OF inj _ gone, of "set ?l"] by simp
  moreover have "removed_now e keys s = fst ` ?gone"
    by (simp add: removed_now_def)
  ultimately show ?thesis
    by (simp add: live_keys_def interfaceList_removePlugins)
qed

lemma removed_now_subset: "removed_now e keys s \<subseteq> live_keys s"
  by (auto simp: removed_now_def live_keys_def)

lemma distinct_keys_removePlugins:
  "distinct (map fst (interfaceList s)) \<Longrightarrow>
   distinct (map fst (interfaceList (removePlugins e keys s)))"
  by (simp add: interfaceList_removePlugins distinct_map_filter)

lemma live_keys_run:
  "distinct (map fst (interfaceList s) @ added_keys ops) \<Longrightarrow>
   live_keys (run ops s) = (live_keys s \<union> set (added_keys ops)) - removed_keys ops s"
proof (induction ops arbitrary: s)
  case Nil
  then show ?case by simp
next
  case (Cons a ops)
  obtain e x where a: "a = (e, x)" by (cases a)
  show ?case
  proof (cases x)
    case (Add key)
    show ?thesis
    proof (cases "factory_create e key")
      case True
      with Cons.prems a Add
      have "distinct (map fst (interfaceList (addPlugin e key s)) @ added_keys ops)"
        by (simp add: interfaceList_addPlugin)
      from Cons.IH [OF this] show ?thesis
        using a Add True by (simp add: live_keys_addPlugin)
    next
      case False
      with Cons.prems a Add
      have "distinct (map fst (interfaceList (addPlugin e key s)) @ added_keys ops)"
        by (simp add: interfaceList_addPlugin)
      from Cons.IH [OF this] show ?thesis
        using a Add False by (simp add: live_keys_addPlugin)
    qed
  next
    case (Remove keys)
    from Cons.prems a Remove
    have d: "distinct (map fst (interfaceList s))"
      and disj: "live_keys s \<inter> set (added_keys ops) = {}"
      and da: "distinct (added_keys ops)"
      by (auto simp: live_keys_def)
    have sub: "live_keys (removePlugins e keys s) \<subseteq> live_keys s"
      by (simp add: live_keys_removePlugins [OF d] Diff_subset)
    have "live_keys (removePlugins e keys s) \<inter> set (added_keys ops) = {}"
      using disj sub by blast
    then have "set (map fst (interfaceList (removePlugins e keys s))) \<inter> set (added_keys ops) = {}"
      by (simp add: live_keys_def)
    then have "distinct (map fst (interfaceList (removePlugins e keys s)) @ added_keys ops)"
      using distinct_keys_removePlugins [OF d, of e keys] da
      by (simp only: distinct_append simp_thms)
    from Cons.IH [OF this]
    have "live_keys (run ops (removePlugins e keys s)) =
          (live_keys s - removed_now e keys s \<union> set (added_keys ops))
            - removed_keys ops (removePlugins e keys s)"
      by (simp add: live_keys_removePlugins [OF d])
    moreover have "removed_now e keys s \<inter> set (added_keys ops) = {}"
      using removed_now_subset [of e keys s] disj by blast
    ultimately show ?thesis
      using a Remove by auto
  qed
qed

lemma removal_calls_none:
  "set keys \<inter> fst ` set xs = {} \<Longrightarrow> removal_calls e keys pre xs = []"
  by (induction xs arbitrary: pre) auto

lemma filter_kept_none:
  "set keys \<inter> fst ` set xs = {} \<Longrightarrow> filter (kept e keys) xs = xs"
  by (induction xs) (auto simp: kept_def)

lemma removePlugins_unregistered:
  "set keys \<inter> live_keys s = {} \<Longrightarrow> removePlugins e keys s = s"
  by (simp add: removePlugins_eq live_keys_def removal_calls_none filter_kept_none)

text \<open>
  C4. For a run of \<open>addPlugin\<close> and \<open>removePlugins\<close> calls, in any order, that starts with
  an empty list and whose added keys are distinct, the keys of the list after the run are
  the keys added less the keys removed. A \<open>removePlugins\<close> for keys none of which is
  registered returns the state it was given: the list is the same and no call is made.
\<close>

theorem live_keys_added_minus_removed:
  "(interfaceList s = [] \<and> distinct (added_keys ops) \<longrightarrow>
      live_keys (run ops s) = set (added_keys ops) - removed_keys ops s)
   \<and> (set keys \<inter> live_keys s = {} \<longrightarrow> removePlugins e keys s = s)"
proof (intro conjI impI)
  assume a: "interfaceList s = [] \<and> distinct (added_keys ops)"
  then have "distinct (map fst (interfaceList s) @ added_keys ops)" by simp
  from live_keys_run [OF this] a
  show "live_keys (run ops s) = set (added_keys ops) - removed_keys ops s"
    by (simp add: live_keys_def)
next
  assume "set keys \<inter> live_keys s = {}"
  then show "removePlugins e keys s = s" by (rule removePlugins_unregistered)
qed

lemma added_keys_sample: "added_keys sample_ops = [''p1'', ''p2'']"
  by (simp add: sample_ops_def plugin_env_def)

lemma removed_keys_sample: "removed_keys sample_ops init_backend = {''p1''}"
  by (simp add: sample_ops_def init_backend_def removed_now_def removePlugins_eq
        interfaceList_addPlugin next_handle_addPlugin plugin_env_def kept_def)

theorem live_keys_added_minus_removed_witness:
  "live_keys (run sample_ops init_backend) = {''p2''} \<and>
   removePlugins plugin_env [''p3''] two_plugins = two_plugins"
proof -
  have "interfaceList init_backend = [] \<and> distinct (added_keys sample_ops)"
    by (simp add: init_backend_def added_keys_sample)
  then have "live_keys (run sample_ops init_backend) =
      set (added_keys sample_ops) - removed_keys sample_ops init_backend"
    using live_keys_added_minus_removed [of init_backend sample_ops] by blast
  then have "live_keys (run sample_ops init_backend) = {''p2''}"
    by (simp add: added_keys_sample removed_keys_sample)
  moreover have "set [''p3''] \<inter> live_keys two_plugins = {}"
    by (simp add: live_keys_def interfaceList_two_plugins)
  then have "removePlugins plugin_env [''p3''] two_plugins = two_plugins"
    using live_keys_added_minus_removed [of two_plugins _ "[''p3'']" plugin_env] by blast
  ultimately show ?thesis by simp
qed

subsection \<open>Entries per key\<close>

text \<open>
  C5, as stated: two \<open>addPlugin\<close> calls for the key p1 from the empty registry leave two
  entries with that key.
\<close>

theorem one_entry_per_key_counterexample:
  "interfaceList (run [(plugin_env, Add ''p1''), (plugin_env, Add ''p1'')] init_backend) =
     [(''p1'', 0), (''p1'', 1)] \<and>
   \<not> distinct (map fst
       (interfaceList (run [(plugin_env, Add ''p1''), (plugin_env, Add ''p1'')] init_backend)))"
  by (simp add: init_backend_def interfaceList_addPlugin next_handle_addPlugin plugin_env_def)

text \<open>
  C5, amended. In every state reached from a registry with at most one entry per key by a
  run of \<open>addPlugin\<close> and \<open>removePlugins\<close> calls in which no \<open>addPlugin\<close> is called for a
  key that is registered at that moment, the registry has at most one entry per key.
\<close>

theorem one_entry_per_key:
  "distinct (map fst (interfaceList s)) \<Longrightarrow> adds_unregistered ops s \<Longrightarrow>
   distinct (map fst (interfaceList (run ops s)))"
proof (induction ops arbitrary: s)
  case Nil
  then show ?case by simp
next
  case (Cons a ops)
  obtain e x where a: "a = (e, x)" by (cases a)
  show ?case
  proof (cases x)
    case (Add key)
    with Cons.prems a have "key \<notin> live_keys s" and "adds_unregistered ops (addPlugin e key s)"
      by simp_all
    moreover from \<open>key \<notin> live_keys s\<close> Cons.prems(1)
    have "distinct (map fst (interfaceList (addPlugin e key s)))"
      by (simp add: interfaceList_addPlugin live_keys_def)
    ultimately show ?thesis
      using Cons.IH a Add by simp
  next
    case (Remove keys)
    with Cons.prems a have "adds_unregistered ops (removePlugins e keys s)" by simp
    with Cons.IH [OF distinct_keys_removePlugins [OF Cons.prems(1)]] a Remove
    show ?thesis by simp
  qed
qed

lemma adds_unregistered_sample: "adds_unregistered sample_ops init_backend"
  by (simp add: sample_ops_def init_backend_def live_keys_def removePlugins_eq
        interfaceList_addPlugin plugin_env_def)

theorem one_entry_per_key_witness:
  "distinct (map fst (interfaceList init_backend)) \<and>
   adds_unregistered sample_ops init_backend \<and>
   distinct (map fst (interfaceList (run sample_ops init_backend)))"
proof -
  have d: "distinct (map fst (interfaceList init_backend))"
    by (simp add: init_backend_def)
  from one_entry_per_key [OF d adds_unregistered_sample] d adds_unregistered_sample
  show ?thesis by simp
qed

subsection \<open>The handler of \<open>pluginModified\<close>\<close>

text \<open>The interfaces of the list are among those constructed, in every state a run
  reaches from the start.\<close>

lemma handles_known_addPlugin: "handles_known s \<Longrightarrow> handles_known (addPlugin e key s)"
  by (auto simp: handles_known_def interfaceList_addPlugin next_handle_addPlugin list_all_iff)

lemma handles_known_removePlugins:
  "handles_known s \<Longrightarrow> handles_known (removePlugins e keys s)"
  by (auto simp: handles_known_def interfaceList_removePlugins next_handle_removePlugins
        list_all_iff)

lemma handles_known_run: "handles_known s \<Longrightarrow> handles_known (run ops s)"
proof (induction ops arbitrary: s)
  case Nil
  then show ?case by simp
next
  case (Cons a ops)
  obtain e x where a: "a = (e, x)" by (cases a)
  from Cons.prems have "handles_known (apply_op e x s)"
    by (cases x) (simp_all add: handles_known_addPlugin handles_known_removePlugins)
  with Cons.IH a show ?case by simp
qed

lemma handles_known_init: "handles_known init_backend"
  by (simp add: handles_known_def init_backend_def)

lemma handles_known_two_plugins: "handles_known two_plugins"
  by (simp add: handles_known_def interfaceList_two_plugins next_handle_two_plugins)

lemma foldl_addPlugin:
  "interfaceList (foldl (\<lambda>s key. addPlugin e key s) s ks) =
     interfaceList s @
     zip (filter (factory_create e) ks)
         [next_handle s ..< next_handle s + length (filter (factory_create e) ks)]
   \<and> next_handle (foldl (\<lambda>s key. addPlugin e key s) s ks) =
     next_handle s + length (filter (factory_create e) ks)
   \<and> (\<exists>t. trace (foldl (\<lambda>s key. addPlugin e key s) s ks) = trace s @ t)"
proof (induction ks arbitrary: s)
  case Nil
  then show ?case by simp
next
  case (Cons k ks)
  obtain t where t: "trace (addPlugin e k s) = trace s @ t"
    using trace_addPlugin by blast
  show ?case
  proof (cases "factory_create e k")
    case True
    have "[next_handle s ..< next_handle s + Suc (length (filter (factory_create e) ks))] =
          next_handle s # [Suc (next_handle s) ..< Suc (next_handle s) + length (filter (factory_create e) ks)]"
      by (simp add: upt_rec)
    with Cons.IH [of "addPlugin e k s"] True t show ?thesis
      by (auto simp: interfaceList_addPlugin next_handle_addPlugin)
  next
    case False
    with Cons.IH [of "addPlugin e k s"] t show ?thesis
      by (auto simp: interfaceList_addPlugin next_handle_addPlugin)
  qed
qed

text \<open>
  C6, as stated. With two plugins registered: when the wait on the thread of p2 fails and
  the reload fails, p2 is still registered after the handler; and when the reload
  succeeds and the factory gives no interface for a key that the reloaded loader
  exposes, that key is not registered after the handler.
\<close>

theorem on_pluginModified_counterexample:
  "reloadLoader plugin_env 9 = None \<and>
   ''p2'' \<in> live_keys (on_pluginModified plugin_env 9 [''p2''] two_plugins) \<and>
   reloadLoader plugin_env 7 = Some 8 \<and>
   ''none'' \<in> set (getKeysByLoader plugin_env 8) \<and>
   ''none'' \<notin> live_keys (on_pluginModified plugin_env 7 [''p1''] two_plugins)"
proof -
  have r: "reloadLoader plugin_env 9 = None" "reloadLoader plugin_env 7 = Some 8"
          "getKeysByLoader plugin_env 8 = [''p2'', ''none'']"
    by (simp_all add: plugin_env_def)
  have "on_pluginModified plugin_env 9 [''p2''] two_plugins =
        emit [ReloadLoader 9 False] (removePlugins plugin_env [''p2''] two_plugins)"
    by (simp add: on_pluginModified_def r)
  then have a: "interfaceList (on_pluginModified plugin_env 9 [''p2''] two_plugins) =
        [(''p1'', 0), (''p2'', 1)]"
    by (simp add: emit_def interfaceList_removePlugins interfaceList_two_plugins kept_def
          plugin_env_def)
  have "on_pluginModified plugin_env 7 [''p1''] two_plugins =
        foldl (\<lambda>s key. addPlugin plugin_env key s)
          (emit [ReloadLoader 7 True] (removePlugins plugin_env [''p1''] two_plugins))
          [''p2'', ''none'']"
    by (simp add: on_pluginModified_def r)
  then have b: "interfaceList (on_pluginModified plugin_env 7 [''p1''] two_plugins) =
        [(''p2'', 1), (''p2'', 2)]"
    by (simp add: emit_def interfaceList_addPlugin next_handle_addPlugin
          interfaceList_removePlugins next_handle_removePlugins
          interfaceList_two_plugins next_handle_two_plugins kept_def plugin_env_def)
  show ?thesis
    using a b by (simp add: live_keys_def plugin_env_def)
qed

text \<open>
  C6, amended. The handler first runs \<open>removePlugins\<close>, which takes out of the list the
  entries with a key in \<open>keys\<close> whose thread finishes, and then asks for the reload. When
  the reload fails nothing more happens: no entry is created. When it succeeds, an entry
  is appended for each key of the reloaded loader for which the factory gives an
  interface, in order, each with an interface constructed by that call, which is none of
  the interfaces of the list before the handler ran.
\<close>

theorem on_pluginModified_registry:
  assumes "handles_known s"
  shows "interfaceList (removePlugins e keys s) = filter (kept e keys) (interfaceList s)
    \<and> (reloadLoader e loader = None \<longrightarrow>
         on_pluginModified e loader keys s =
           emit [ReloadLoader loader False] (removePlugins e keys s))
    \<and> (\<forall>loader'. reloadLoader e loader = Some loader' \<longrightarrow>
         (let ks = filter (factory_create e) (getKeysByLoader e loader');
              new = zip ks [next_handle s ..< next_handle s + length ks]
          in interfaceList (on_pluginModified e loader keys s) =
               interfaceList (removePlugins e keys s) @ new
             \<and> map fst new = ks
             \<and> set (map snd new) \<inter> snd ` set (interfaceList s) = {}
             \<and> (\<exists>t. trace (on_pluginModified e loader keys s) =
                      trace (removePlugins e keys s) @ ReloadLoader loader True # t)))"
proof (intro conjI allI impI)
  show "interfaceList (removePlugins e keys s) = filter (kept e keys) (interfaceList s)"
    by (rule interfaceList_removePlugins)
next
  assume "reloadLoader e loader = None"
  then show "on_pluginModified e loader keys s =
           emit [ReloadLoader loader False] (removePlugins e keys s)"
    by (simp add: on_pluginModified_def)
next
  fix loader'
  assume r: "reloadLoader e loader = Some loader'"
  let ?s2 = "emit [ReloadLoader loader True] (removePlugins e keys s)"
  let ?ks = "filter (factory_create e) (getKeysByLoader e loader')"
  let ?new = "zip ?ks [next_handle s ..< next_handle s + length ?ks]"
  have m: "on_pluginModified e loader keys s =
           foldl (\<lambda>s key. addPlugin e key s) ?s2 (getKeysByLoader e loader')"
    using r by (simp add: on_pluginModified_def)
  have s2: "interfaceList ?s2 = interfaceList (removePlugins e keys s)"
           "next_handle ?s2 = next_handle s"
           "trace ?s2 = trace (removePlugins e keys s) @ [ReloadLoader loader True]"
    by (simp_all add: emit_def next_handle_removePlugins)
  from foldl_addPlugin [of e ?s2 "getKeysByLoader e loader'"]
  have l: "interfaceList (on_pluginModified e loader keys s) =
             interfaceList (removePlugins e keys s) @ ?new"
    and t: "\<exists>t. trace (on_pluginModified e loader keys s) =
                 trace (removePlugins e keys s) @ ReloadLoader loader True # t"
    by (simp_all add: m s2)
  have fstnew: "map fst ?new = ?ks" by simp
  have "snd ` set (interfaceList s) \<subseteq> {..< next_handle s}"
    using assms by (auto simp: handles_known_def list_all_iff)
  moreover have "set (map snd ?new) \<subseteq> {next_handle s ..}"
    by auto
  ultimately have fresh: "set (map snd ?new) \<inter> snd ` set (interfaceList s) = {}"
    by fastforce
  show "let ks = filter (factory_create e) (getKeysByLoader e loader');
              new = zip ks [next_handle s ..< next_handle s + length ks]
          in interfaceList (on_pluginModified e loader keys s) =
               interfaceList (removePlugins e keys s) @ new
             \<and> map fst new = ks
             \<and> set (map snd new) \<inter> snd ` set (interfaceList s) = {}
             \<and> (\<exists>t. trace (on_pluginModified e loader keys s) =
                      trace (removePlugins e keys s) @ ReloadLoader loader True # t)"
    unfolding Let_def using l fstnew fresh t by blast
qed

theorem on_pluginModified_registry_witness:
  "handles_known two_plugins \<and>
   reloadLoader plugin_env 7 = Some 8 \<and>
   interfaceList (on_pluginModified plugin_env 7 [''p1''] two_plugins) =
     [(''p2'', 1), (''p2'', 2)] \<and>
   on_pluginModified plugin_env 9 [''p1''] two_plugins =
     emit [ReloadLoader 9 False] (removePlugins plugin_env [''p1''] two_plugins)"
proof -
  have r: "reloadLoader plugin_env 7 = Some 8" "reloadLoader plugin_env 9 = None"
    by (simp_all add: plugin_env_def)
  have ks: "filter (factory_create plugin_env) (getKeysByLoader plugin_env 8) = [''p2'']"
    by (simp add: plugin_env_def)
  have u: "[2 ..< 3] = [2::nat]" by (simp add: upt_rec)
  note w = on_pluginModified_registry [OF handles_known_two_plugins, of plugin_env "[''p1'']"]
  have "interfaceList (removePlugins plugin_env [''p1''] two_plugins) = [(''p2'', 1)]"
    using w [of 7] by (simp add: interfaceList_two_plugins kept_def plugin_env_def)
  moreover have "interfaceList (on_pluginModified plugin_env 7 [''p1''] two_plugins) =
      interfaceList (removePlugins plugin_env [''p1''] two_plugins) @ [(''p2'', 2)]"
    using w [of 7] r(1) by (simp add: Let_def ks next_handle_two_plugins u)
  moreover have "on_pluginModified plugin_env 9 [''p1''] two_plugins =
     emit [ReloadLoader 9 False] (removePlugins plugin_env [''p1''] two_plugins)"
    using w [of 9] r(2) by simp
  ultimately show ?thesis
    using handles_known_two_plugins r(1) by simp
qed

subsection \<open>\<open>init_connection\<close>\<close>

lemma hasconnected_emit: "hasconnected (emit t s) = hasconnected s"
  by (simp add: emit_def)

lemma hasconnected_foldl_addPlugin:
  "hasconnected (foldl (\<lambda>s key. addPlugin e key s) s ks) = hasconnected s"
  by (induction ks arbitrary: s) (simp_all add: hasconnected_addPlugin)

lemma hasconnected_backendRun: "hasconnected (snd (backendRun e s)) = hasconnected s"
  by (simp add: backendRun_def Let_def emit_def)

lemma fst_monitorStart: "fst (monitorStart e s) = 0"
  by (simp add: monitorStart_def Let_def split: prod.split)

lemma hasconnected_monitorStart: "hasconnected (snd (monitorStart e s)) = hasconnected s"
  by (simp add: monitorStart_def Let_def hasconnected_foldl_addPlugin hasconnected_emit
        split: prod.split)

lemma fst_backendRun: "fst (backendRun e s) \<in> {0, 2, 3}"
  by (simp add: backendRun_def Let_def)

lemma init_connection_unfold:
  "init_connection e s =
     (if hasconnected s then (0, s)
      else if fst (backendRun e s) = 0
           then (0, (snd (monitorStart e (snd (backendRun e s))))\<lparr>hasconnected := True\<rparr>)
           else (- 1, snd (backendRun e s)))"
  by (simp add: init_connection_def split: prod.split)

lemma backendRun_plugin_env: "fst (backendRun plugin_env s) = 0"
  by (simp add: backendRun_def Let_def plugin_env_def)

lemma backendRun_refused:
  "fst (backendRun (plugin_env\<lparr>registerService := False\<rparr>) s) = 2"
  by (simp add: backendRun_def Let_def plugin_env_def)

text \<open>
  C9. A call of \<open>init_connection\<close> that returns 0 leaves the flag \<open>hasconnected\<close> set, and
  every call in a state where the flag is set returns 0 and the state it was given: no
  call is made, neither \<open>backendRun\<close> nor \<open>monitorStart\<close> runs, and the registry and
  the server are as before. The handlers of the loader's signals leave the flag as it is.
  A call in a state where the flag is not set sets it exactly when \<open>backendRun\<close>
  returns 0; otherwise it returns \<open>-1\<close> with the state \<open>backendRun\<close> left.
\<close>

theorem init_connection_idempotent:
  "(fst (init_connection e s) = 0 \<longrightarrow>
      hasconnected (snd (init_connection e s)) \<and>
      (\<forall>e'. init_connection e' (snd (init_connection e s)) = (0, snd (init_connection e s))))
   \<and> (hasconnected s \<longrightarrow> init_connection e s = (0, s))
   \<and> hasconnected (on_pluginAdded e key s) = hasconnected s
   \<and> hasconnected (on_pluginRemoved e loader keys s) = hasconnected s
   \<and> hasconnected (on_pluginModified e loader keys s) = hasconnected s
   \<and> (\<not> hasconnected s \<longrightarrow>
        (hasconnected (snd (init_connection e s)) \<longleftrightarrow> fst (backendRun e s) = 0) \<and>
        (fst (backendRun e s) \<noteq> 0 \<longrightarrow> init_connection e s = (- 1, snd (backendRun e s))))"
proof (intro conjI impI allI)
  assume z: "fst (init_connection e s) = 0"
  then show c: "hasconnected (snd (init_connection e s))"
    by (simp add: init_connection_unfold hasconnected_backendRun split: if_splits)
  show "init_connection e' (snd (init_connection e s)) = (0, snd (init_connection e s))" for e'
    using c by (simp add: init_connection_unfold [of e' "snd (init_connection e s)"])
next
  assume "hasconnected s"
  then show "init_connection e s = (0, s)" by (simp add: init_connection_unfold)
next
  show "hasconnected (on_pluginAdded e key s) = hasconnected s"
    by (simp add: on_pluginAdded_def hasconnected_addPlugin)
  show "hasconnected (on_pluginRemoved e loader keys s) = hasconnected s"
    by (simp add: on_pluginRemoved_def hasconnected_emit hasconnected_removePlugins)
  show "hasconnected (on_pluginModified e loader keys s) = hasconnected s"
    by (simp add: on_pluginModified_def Let_def hasconnected_foldl_addPlugin
          hasconnected_emit hasconnected_removePlugins split: option.split)
next
  assume n: "\<not> hasconnected s"
  then show "hasconnected (snd (init_connection e s)) \<longleftrightarrow> fst (backendRun e s) = 0"
    by (simp add: init_connection_unfold hasconnected_backendRun)
  show "init_connection e s = (- 1, snd (backendRun e s))" if "fst (backendRun e s) \<noteq> 0"
    using n that by (simp add: init_connection_unfold)
qed

theorem init_connection_idempotent_witness:
  "fst (init_connection plugin_env init_backend) = 0 \<and>
   hasconnected (snd (init_connection plugin_env init_backend)) \<and>
   init_connection plugin_env (snd (init_connection plugin_env init_backend)) =
     (0, snd (init_connection plugin_env init_backend)) \<and>
   \<not> hasconnected (snd (init_connection (plugin_env\<lparr>registerService := False\<rparr>) init_backend)) \<and>
   fst (init_connection (plugin_env\<lparr>registerService := False\<rparr>) init_backend) = - 1"
proof -
  have n: "\<not> hasconnected init_backend" by (simp add: init_backend_def)
  have z: "fst (init_connection plugin_env init_backend) = 0"
    using n by (simp add: init_connection_unfold backendRun_plugin_env)
  note a = init_connection_idempotent [of plugin_env init_backend]
  note b = init_connection_idempotent [of "plugin_env\<lparr>registerService := False\<rparr>" init_backend]
  have "hasconnected (snd (init_connection plugin_env init_backend))"
    using a z by blast
  moreover have "init_connection plugin_env (snd (init_connection plugin_env init_backend)) =
     (0, snd (init_connection plugin_env init_backend))"
    using a z by blast
  moreover have r: "init_connection (plugin_env\<lparr>registerService := False\<rparr>) init_backend =
     (- 1, snd (backendRun (plugin_env\<lparr>registerService := False\<rparr>) init_backend))"
    using b n by (simp add: backendRun_refused)
  moreover have "\<not> hasconnected (snd (init_connection (plugin_env\<lparr>registerService := False\<rparr>) init_backend))"
    by (simp add: r hasconnected_backendRun n)
  ultimately show ?thesis using z by simp
qed

end
